theory Spec2Isabelle
  imports Main
begin

section \<open>The render orchestrator of \<^verbatim>\<open>src/js/lib/render-image.js\<close>\<close>

text \<open>
  The class \<^verbatim>\<open>RenderImage\<close> picks a rendering backend, validates and applies a stack of
  operations and resizes the result. Everything it calls (the two renderers, the
  operations, \<^verbatim>\<open>ImageDimensions\<close>, \<^verbatim>\<open>Vector2\<close>) lives in other modules. The embedding
  therefore records every call to a collaborator as an event of a trace, and takes what
  the collaborator answers from the operation itself or from a record of replies.
\<close>

subsection \<open>Values\<close>

text \<open>
  A JavaScript exception value: \<^verbatim>\<open>new Error(message)\<close>, or the \<^verbatim>\<open>TypeError\<close> the
  language raises when a method is called on a value that has none.
\<close>

datatype error = Error string | TypeError string

text \<open>
  Modelled from the spec: \<^verbatim>\<open>./math/vector2\<close> is not among the sources. The spec
  describes the value as an immutable pair of numeric width and height with an equality
  comparison; pixel sizes are taken as integers.
\<close>

record vector2 =
  vec_x :: int
  vec_y :: int

definition Vector2 :: "int \<Rightarrow> int \<Rightarrow> vector2" where
  "Vector2 a b = \<lparr>vec_x = a, vec_y = b\<rparr>"

definition equals :: "vector2 \<Rightarrow> vector2 \<Rightarrow> bool" where
  "equals v w \<longleftrightarrow> vec_x v = vec_x w \<and> vec_y v = vec_y w"

record image =
  src :: string
  width :: int
  height :: int

subsection \<open>Promises\<close>

text \<open>
  A promise handed back by a collaborator is fulfilled or rejected at some turn of the
  event loop (the number orders the settlements of one phase), or it stays pending for
  ever. What a caller of \<^verbatim>\<open>then\<close> observes is the \<open>outcome\<close>.
\<close>

datatype promise = Fulfils nat | Rejects nat error | Pending

datatype outcome = Resolved | Failed error | Unsettled

fun settle :: "promise \<Rightarrow> outcome" where
  "settle (Fulfils t) = Resolved"
| "settle (Rejects t e) = Failed e"
| "settle Pending = Unsettled"

fun is_pending :: "promise \<Rightarrow> bool" where
  "is_pending Pending = True"
| "is_pending _ = False"

text \<open>
  \<^verbatim>\<open>Promise.all\<close> rejects with the reason of the promise that is rejected first, however
  many others are still pending; of two promises rejected in the same turn the one with
  the smaller index counts as the first. It is fulfilled once every promise is, and the
  empty array is fulfilled at once.
\<close>

fun first_rejection :: "promise list \<Rightarrow> (nat \<times> error) option" where
  "first_rejection [] = None"
| "first_rejection (Rejects t e # ps) =
     (case first_rejection ps of
        None \<Rightarrow> Some (t, e)
      | Some (t', e') \<Rightarrow> if t' < t then Some (t', e') else Some (t, e))"
| "first_rejection (p # ps) = first_rejection ps"

definition Promise_all :: "promise list \<Rightarrow> outcome" where
  "Promise_all ps =
     (case first_rejection ps of
        Some (t, e) \<Rightarrow> Failed e
      | None \<Rightarrow> if list_ex is_pending ps then Unsettled else Resolved)"

subsection \<open>Operations and the entries of an operation stack\<close>

text \<open>
  An operation is external: it is known by the promises its two methods hand back.
\<close>

record operation =
  operation_name :: string
  validateSettings :: promise
  operation_render :: promise

text \<open>
  The stack is documented as an array of operations; the code lets falsy values stand in
  it as well. An entry is therefore one of JavaScript's falsy values or an operation.
\<close>

datatype entry =
    JNull | JUndefined | JFalse | JZero | JNaN | JEmptyString
  | JOperation operation

fun truthy :: "entry \<Rightarrow> bool" where
  "truthy (JOperation operation) = True"
| "truthy _ = False"

fun operations :: "entry list \<Rightarrow> operation list" where
  "operations [] = []"
| "operations (JOperation operation # rest) = operation # operations rest"
| "operations (_ # rest) = operations rest"

subsection \<open>The store of arrays\<close>

text \<open>
  The orchestrator keeps a reference to the caller's array, and builds new arrays. Arrays
  of entries live in a store, addressed by numbers; \<open>fresh\<close> is the next address to be
  handed out, so the arrays that exist are those below it.
\<close>

type_synonym addr = nat

record heap =
  arrays :: "addr \<Rightarrow> entry list"
  fresh :: addr

definition new_array :: "heap \<Rightarrow> addr \<times> heap" where
  "new_array h = (fresh h, h\<lparr>arrays := (arrays h)(fresh h := []), fresh := Suc (fresh h)\<rparr>)"

definition push :: "addr \<Rightarrow> entry \<Rightarrow> heap \<Rightarrow> heap" where
  "push a v h = h\<lparr>arrays := (arrays h)(a := arrays h a @ [v])\<rparr>"

subsection \<open>Collaborators and the trace of calls\<close>

datatype backend = WebGL | Canvas

datatype renderer = Renderer backend vector2

datatype event =
    IsSupported backend
  | NewRenderer backend vector2
  | DrawImage image
  | ValidateSettings operation
  | OperationRender operation "renderer option"
  | RenderFinal
  | GetSize
  | CalculateFinalDimensions string vector2
  | ResizeTo vector2

text \<open>What the host environment answers to the two capability probes.\<close>

record host =
  webgl_isSupported :: bool
  canvas_isSupported :: bool

text \<open>
  What the backend and the dimension resolver answer during one call of \<^verbatim>\<open>render\<close>.
  \<^verbatim>\<open>./image-dimensions\<close> and the renderers are not among the sources, so their answers
  are parameters.
\<close>

record collaborators =
  renderFinal :: promise
  getSize :: vector2
  calculateFinalDimensions :: "string \<Rightarrow> vector2 \<Rightarrow> vector2"
  resizeTo :: "vector2 \<Rightarrow> promise"

subsection \<open>The class\<close>

record render_image =
  options_preferredRenderer :: "string option"
  webglEnabled :: bool
  renderer :: "renderer option"
  source_image :: image
  stack :: addr
  dimensions :: string
  initialDimensions :: vector2

text \<open>
  A constructor call yields the calls it made and either the error it threw or the
  instance. Creating the \<^verbatim>\<open>ImageDimensions\<close>, the \<^verbatim>\<open>Vector2\<close> and the renderer, and
  \<^verbatim>\<open>drawImage\<close> itself, are taken to return normally: the spec has the dimensions string
  parsed only when the final size is computed.
\<close>

definition initRenderer :: "host \<Rightarrow> render_image \<Rightarrow> event list \<times> (error + render_image)" where
  "initRenderer env this =
     (let (probes, this') =
        (if webgl_isSupported env \<and> options_preferredRenderer this \<noteq> Some ''canvas''
         then ([IsSupported WebGL, NewRenderer WebGL (initialDimensions this)],
               this\<lparr>renderer := Some (Renderer WebGL (initialDimensions this)),
                    webglEnabled := True\<rparr>)
         else if canvas_isSupported env
         then ([IsSupported WebGL, IsSupported Canvas, NewRenderer Canvas (initialDimensions this)],
               this\<lparr>renderer := Some (Renderer Canvas (initialDimensions this)),
                    webglEnabled := False\<rparr>)
         else ([IsSupported WebGL, IsSupported Canvas], this))
      in case renderer this' of
           None \<Rightarrow> (probes, Inl (Error ''Neither Canvas nor WebGL renderer are supported.''))
         | Some r \<Rightarrow> (probes @ [DrawImage (source_image this')], Inr this'))"

definition RenderImage ::
  "host \<Rightarrow> image \<Rightarrow> addr \<Rightarrow> string \<Rightarrow> string option \<Rightarrow> event list \<times> (error + render_image)" where
  "RenderImage env img operationsStack dims preferredRenderer =
     initRenderer env
       \<lparr>options_preferredRenderer = preferredRenderer,
        webglEnabled = False,
        renderer = None,
        source_image = img,
        stack = operationsStack,
        dimensions = dims,
        initialDimensions = Vector2 (width img) (height img)\<rparr>"

definition getRenderer :: "render_image \<Rightarrow> renderer option" where
  "getRenderer this = renderer this"

text \<open>
  The getter \<^verbatim>\<open>sanitizedStack\<close>: a new array, filled by the loop. The loop runs over
  the entries of \<^verbatim>\<open>this._stack\<close>; it writes to the new array only, and the calls to
  collaborators are taken not to write to the store.
\<close>

fun sanitize_loop :: "entry list \<Rightarrow> addr \<Rightarrow> heap \<Rightarrow> heap" where
  "sanitize_loop [] out h = h"
| "sanitize_loop (operation # rest) out h =
     (if \<not> truthy operation then sanitize_loop rest out h
      else sanitize_loop rest out (push out operation h))"

definition sanitizedStack :: "render_image \<Rightarrow> heap \<Rightarrow> addr \<times> heap" where
  "sanitizedStack this h =
     (let (out, h') = new_array h
      in (out, sanitize_loop (arrays h' (stack this)) out h'))"

text \<open>
  The two loops of \<^verbatim>\<open>render\<close>. Calling a method on an entry that is no operation raises
  a \<^verbatim>\<open>TypeError\<close>, which ends the loop.
\<close>

fun validation_loop :: "entry list \<Rightarrow> event list \<times> (error + promise list)" where
  "validation_loop [] = ([], Inr [])"
| "validation_loop (JOperation operation # rest) =
     (case validation_loop rest of
        (tr, Inl e) \<Rightarrow> (ValidateSettings operation # tr, Inl e)
      | (tr, Inr ps) \<Rightarrow> (ValidateSettings operation # tr, Inr (validateSettings operation # ps)))"
| "validation_loop (_ # rest) = ([], Inl (TypeError ''validateSettings''))"

fun render_loop :: "renderer option \<Rightarrow> entry list \<Rightarrow> event list \<times> (error + promise list)" where
  "render_loop r [] = ([], Inr [])"
| "render_loop r (JOperation operation # rest) =
     (case render_loop r rest of
        (tr, Inl e) \<Rightarrow> (OperationRender operation r # tr, Inl e)
      | (tr, Inr ps) \<Rightarrow> (OperationRender operation r # tr, Inr (operation_render operation # ps)))"
| "render_loop r (_ # rest) = ([], Inl (TypeError ''render''))"

text \<open>
  A deferred computation is the calls made so far and the outcome of its promise.
  \<^verbatim>\<open>p.then(k)\<close> runs the callback only once \<open>p\<close> is fulfilled; a rejection passes through
  and a pending promise leaves the derived one pending.
\<close>

type_synonym deferred = "event list \<times> outcome"

definition then_do :: "deferred \<Rightarrow> deferred \<Rightarrow> deferred" where
  "then_do p k =
     (case snd p of
        Resolved \<Rightarrow> (fst p @ fst k, snd k)
      | Failed e \<Rightarrow> (fst p, Failed e)
      | Unsettled \<Rightarrow> (fst p, Unsettled))"

text \<open>The three callbacks; an exception thrown inside a callback rejects its promise.\<close>

definition render_phase :: "render_image \<Rightarrow> entry list \<Rightarrow> deferred" where
  "render_phase this stack_entries =
     (case render_loop (renderer this) stack_entries of
        (tr, Inl e) \<Rightarrow> (tr, Failed e)
      | (tr, Inr promises) \<Rightarrow> (tr, Promise_all promises))"

definition finalize_phase :: "collaborators \<Rightarrow> render_image \<Rightarrow> deferred" where
  "finalize_phase c this =
     (case renderer this of
        None \<Rightarrow> ([], Failed (TypeError ''renderFinal''))
      | Some r \<Rightarrow> ([RenderFinal], settle (renderFinal c)))"

definition resize_phase :: "collaborators \<Rightarrow> render_image \<Rightarrow> deferred" where
  "resize_phase c this =
     (case renderer this of
        None \<Rightarrow> ([], Failed (TypeError ''getSize''))
      | Some r \<Rightarrow>
          (let initialSize = getSize c;
               finalDimensions = calculateFinalDimensions c (dimensions this) initialSize
           in if equals finalDimensions initialSize
              then ([GetSize, CalculateFinalDimensions (dimensions this) initialSize], Resolved)
              else ([GetSize, CalculateFinalDimensions (dimensions this) initialSize,
                     ResizeTo finalDimensions],
                    settle (resizeTo c finalDimensions))))"

text \<open>
  A call of \<^verbatim>\<open>render\<close> either throws before it has a promise to return, or returns one.
\<close>

datatype completion = Throws error | Returns outcome

definition render :: "collaborators \<Rightarrow> render_image \<Rightarrow> heap \<Rightarrow> (event list \<times> completion) \<times> heap" where
  "render c this h =
     (let (stack_ref, h') = sanitizedStack this h;
          stack_entries = arrays h' stack_ref
      in case validation_loop stack_entries of
           (tr, Inl e) \<Rightarrow> ((tr, Throws e), h')
         | (tr, Inr validationPromises) \<Rightarrow>
             (let d = then_do (then_do (then_do (tr, Promise_all validationPromises)
                                          (render_phase this stack_entries))
                                 (finalize_phase c this))
                        (resize_phase c this)
              in ((fst d, Returns (snd d)), h')))"

subsection \<open>Reading a call of \<^verbatim>\<open>render\<close> and a trace\<close>

definition render_trace :: "collaborators \<Rightarrow> render_image \<Rightarrow> heap \<Rightarrow> event list" where
  "render_trace c this h = fst (fst (render c this h))"

definition render_completion :: "collaborators \<Rightarrow> render_image \<Rightarrow> heap \<Rightarrow> completion" where
  "render_completion c this h = snd (fst (render c this h))"

definition render_heap :: "collaborators \<Rightarrow> render_image \<Rightarrow> heap \<Rightarrow> heap" where
  "render_heap c this h = snd (render c this h)"

text \<open>
  The promise chain of \<^verbatim>\<open>render\<close>, written over the operations that the two loops
  visit.
\<close>

definition phases :: "collaborators \<Rightarrow> render_image \<Rightarrow> operation list \<Rightarrow> deferred" where
  "phases c this ops =
     then_do (then_do (then_do (map ValidateSettings ops, Promise_all (map validateSettings ops))
                         (map (\<lambda>operation. OperationRender operation (renderer this)) ops,
                          Promise_all (map operation_render ops)))
                (finalize_phase c this))
       (resize_phase c this)"

text \<open>The contents of the array that the getter hands back.\<close>

definition sanitized :: "render_image \<Rightarrow> heap \<Rightarrow> entry list" where
  "sanitized this h = arrays (snd (sanitizedStack this h)) (fst (sanitizedStack this h))"

fun drawImage_calls :: "event list \<Rightarrow> image list" where
  "drawImage_calls [] = []"
| "drawImage_calls (DrawImage i # tr) = i # drawImage_calls tr"
| "drawImage_calls (_ # tr) = drawImage_calls tr"

fun validateSettings_calls :: "event list \<Rightarrow> operation list" where
  "validateSettings_calls [] = []"
| "validateSettings_calls (ValidateSettings operation # tr) = operation # validateSettings_calls tr"
| "validateSettings_calls (_ # tr) = validateSettings_calls tr"

fun operation_render_calls :: "event list \<Rightarrow> operation list" where
  "operation_render_calls [] = []"
| "operation_render_calls (OperationRender operation r # tr) = operation # operation_render_calls tr"
| "operation_render_calls (_ # tr) = operation_render_calls tr"

fun resizeTo_calls :: "event list \<Rightarrow> vector2 list" where
  "resizeTo_calls [] = []"
| "resizeTo_calls (ResizeTo v # tr) = v # resizeTo_calls tr"
| "resizeTo_calls (_ # tr) = resizeTo_calls tr"

text \<open>
  The calls of one instance over its life: those of the constructor, then those of each
  call of \<^verbatim>\<open>render\<close>, whatever the collaborators answer and whatever the store holds by
  then.
\<close>

definition lifetime_trace ::
  "event list \<Rightarrow> render_image \<Rightarrow> (collaborators \<times> heap) list \<Rightarrow> event list" where
  "lifetime_trace constructed this calls =
     constructed @ concat (map (\<lambda>(c, h). render_trace c this h) calls)"

text \<open>What a caller does when it rewrites one of its arrays between two calls.\<close>

definition caller_writes :: "addr \<Rightarrow> entry list \<Rightarrow> heap \<Rightarrow> heap" where
  "caller_writes a xs h = h\<lparr>arrays := (arrays h)(a := xs)\<rparr>"

text \<open>What a constructor call selected, and the flag it left, read off its result.\<close>

fun selected_backend :: "error + render_image \<Rightarrow> backend option" where
  "selected_backend (Inl e) = None"
| "selected_backend (Inr this) =
     (case renderer this of None \<Rightarrow> None | Some (Renderer b v) \<Rightarrow> Some b)"

subsection \<open>Example values\<close>

definition crop :: operation where
  "crop = \<lparr>operation_name = ''crop'', validateSettings = Fulfils 1, operation_render = Fulfils 2\<rparr>"

definition rotation :: operation where
  "rotation = \<lparr>operation_name = ''rotation'', validateSettings = Fulfils 2, operation_render = Fulfils 1\<rparr>"

definition filters :: operation where
  "filters = \<lparr>operation_name = ''filters'', validateSettings = Fulfils 1, operation_render = Fulfils 1\<rparr>"

definition invalid_crop :: operation where
  "invalid_crop =
     \<lparr>operation_name = ''crop'', validateSettings = Rejects 1 (Error ''invalid settings''),
      operation_render = Fulfils 2\<rparr>"

definition photo :: image where
  "photo = \<lparr>src = ''photo.jpg'', width = 100, height = 100\<rparr>"

definition both_supported :: host where
  "both_supported = \<lparr>webgl_isSupported = True, canvas_isSupported = True\<rparr>"

definition none_supported :: host where
  "none_supported = \<lparr>webgl_isSupported = False, canvas_isSupported = False\<rparr>"

definition webgl_instance :: render_image where
  "webgl_instance =
     \<lparr>options_preferredRenderer = None, webglEnabled = True,
      renderer = Some (Renderer WebGL (Vector2 100 100)), source_image = photo,
      stack = 0, dimensions = ''50x50'', initialDimensions = Vector2 100 100\<rparr>"

definition mixed_store :: heap where
  "mixed_store =
     \<lparr>arrays = (\<lambda>a. [])(0 := [JOperation crop, JNull, JOperation rotation, JUndefined,
                                 JOperation filters]),
      fresh = 1\<rparr>"

definition failing_store :: heap where
  "failing_store =
     \<lparr>arrays = (\<lambda>a. [])(0 := [JOperation invalid_crop, JNull, JOperation rotation]),
      fresh = 1\<rparr>"

definition falsy_store :: heap where
  "falsy_store = \<lparr>arrays = (\<lambda>a. [])(0 := [JNull, JUndefined]), fresh = 1\<rparr>"

definition halving :: collaborators where
  "halving =
     \<lparr>renderFinal = Fulfils 1, getSize = Vector2 100 100,
      calculateFinalDimensions = (\<lambda>d v. Vector2 (vec_x v div 2) (vec_y v div 2)),
      resizeTo = (\<lambda>v. Fulfils 1)\<rparr>"

definition keeping :: collaborators where
  "keeping =
     \<lparr>renderFinal = Fulfils 1, getSize = Vector2 100 100,
      calculateFinalDimensions = (\<lambda>d v. v),
      resizeTo = (\<lambda>v. Fulfils 1)\<rparr>"

definition losing_context :: collaborators where
  "losing_context =
     \<lparr>renderFinal = Rejects 1 (Error ''context lost''), getSize = Vector2 100 100,
      calculateFinalDimensions = (\<lambda>d v. v),
      resizeTo = (\<lambda>v. Fulfils 1)\<rparr>"

section \<open>Properties\<close>

subsection \<open>The getter\<close>

lemma sanitize_loop_eq:
  "sanitize_loop xs out h = h\<lparr>arrays := (arrays h)(out := arrays h out @ filter truthy xs)\<rparr>"
  by (induction xs arbitrary: h) (auto simp: push_def)

lemma sanitizedStack_eq:
  "sanitizedStack this h =
     (fresh h,
      h\<lparr>arrays := (arrays h)(fresh h :=
             filter truthy (if stack this = fresh h then [] else arrays h (stack this))),
        fresh := Suc (fresh h)\<rparr>)"
  by (simp add: sanitizedStack_def new_array_def sanitize_loop_eq)

lemma sanitized_eq:
  "sanitized this h = filter truthy (if stack this = fresh h then [] else arrays h (stack this))"
  by (simp add: sanitized_def sanitizedStack_eq)

text \<open>
  Claim C4. The array handed back by \<^verbatim>\<open>sanitizedStack\<close> holds exactly the truthy
  entries of the caller's stack, in the order they have there: every falsy entry is left
  out and nothing else is.
\<close>

theorem sanitizedStack_filters_falsy:
  assumes "stack this < fresh h"
  shows "sanitized this h = filter truthy (arrays h (stack this))"
  using assms by (simp add: sanitized_eq)

theorem sanitizedStack_filters_falsy_witness:
  "stack webgl_instance < fresh mixed_store
   \<and> arrays mixed_store (stack webgl_instance)
       = [JOperation crop, JNull, JOperation rotation, JUndefined, JOperation filters]
   \<and> sanitized webgl_instance mixed_store
       = [JOperation crop, JOperation rotation, JOperation filters]"
  using sanitizedStack_filters_falsy [of webgl_instance mixed_store]
  by (simp add: webgl_instance_def mixed_store_def)

subsection \<open>The constructor\<close>

lemma RenderImage_eq:
  "RenderImage env img s d pref =
     (if webgl_isSupported env \<and> pref \<noteq> Some ''canvas''
      then ([IsSupported WebGL, NewRenderer WebGL (Vector2 (width img) (height img)), DrawImage img],
            Inr \<lparr>options_preferredRenderer = pref, webglEnabled = True,
                 renderer = Some (Renderer WebGL (Vector2 (width img) (height img))),
                 source_image = img, stack = s, dimensions = d,
                 initialDimensions = Vector2 (width img) (height img)\<rparr>)
      else if canvas_isSupported env
      then ([IsSupported WebGL, IsSupported Canvas,
             NewRenderer Canvas (Vector2 (width img) (height img)), DrawImage img],
            Inr \<lparr>options_preferredRenderer = pref, webglEnabled = False,
                 renderer = Some (Renderer Canvas (Vector2 (width img) (height img))),
                 source_image = img, stack = s, dimensions = d,
                 initialDimensions = Vector2 (width img) (height img)\<rparr>)
      else ([IsSupported WebGL, IsSupported Canvas],
            Inl (Error ''Neither Canvas nor WebGL renderer are supported.'')))"
  by (simp add: RenderImage_def initRenderer_def)

text \<open>
  Claim C2. Whatever the two probes answer and whatever the preference is, the constructor
  takes the WebGL renderer when it is supported and the preference is not \<^verbatim>\<open>"canvas"\<close>,
  else the canvas renderer when that is supported, else it fails; the flag
  \<^verbatim>\<open>_webglEnabled\<close> is true exactly when WebGL was taken.
\<close>

theorem backend_selection:
  "selected_backend (snd (RenderImage env img s d pref)) =
     (if webgl_isSupported env \<and> pref \<noteq> Some ''canvas'' then Some WebGL
      else if canvas_isSupported env then Some Canvas
      else None)
   \<and> map_sum id webglEnabled (snd (RenderImage env img s d pref)) =
     (if webgl_isSupported env \<and> pref \<noteq> Some ''canvas'' then Inr True
      else if canvas_isSupported env then Inr False
      else Inl (Error ''Neither Canvas nor WebGL renderer are supported.''))"
  by (simp add: RenderImage_eq)

theorem backend_selection_witness:
  "selected_backend (snd (RenderImage both_supported photo 0 ''50x50'' (Some ''canvas''))) = Some Canvas
   \<and> map_sum id webglEnabled (snd (RenderImage both_supported photo 0 ''50x50'' (Some ''canvas'')))
       = Inr False
   \<and> selected_backend (snd (RenderImage both_supported photo 0 ''50x50'' None)) = Some WebGL
   \<and> map_sum id webglEnabled (snd (RenderImage both_supported photo 0 ''50x50'' None)) = Inr True"
  using backend_selection [of both_supported photo 0 "''50x50''" "Some ''canvas''"]
        backend_selection [of both_supported photo 0 "''50x50''" None]
  by (simp add: both_supported_def)

text \<open>
  Claim C6. When neither renderer is supported the constructor itself throws the error
  (the result is the error, not an instance with a rejected promise), after the two probes
  only: no renderer is created and \<^verbatim>\<open>drawImage\<close> is not called.
\<close>

theorem no_renderer_available:
  assumes "\<not> webgl_isSupported env" and "\<not> canvas_isSupported env"
  shows "RenderImage env img s d pref =
           ([IsSupported WebGL, IsSupported Canvas],
            Inl (Error ''Neither Canvas nor WebGL renderer are supported.''))
         \<and> drawImage_calls (fst (RenderImage env img s d pref)) = []"
  using assms by (simp add: RenderImage_eq)

theorem no_renderer_available_witness:
  "\<not> webgl_isSupported none_supported \<and> \<not> canvas_isSupported none_supported
   \<and> RenderImage none_supported photo 0 ''50x50'' None =
           ([IsSupported WebGL, IsSupported Canvas],
            Inl (Error ''Neither Canvas nor WebGL renderer are supported.''))
   \<and> drawImage_calls (fst (RenderImage none_supported photo 0 ''50x50'' None)) = []"
  using no_renderer_available [of none_supported photo 0 "''50x50''" None]
  by (simp add: none_supported_def)

subsection \<open>The call of render\<close>

lemma validation_loop_filter:
  "validation_loop (filter truthy xs) =
     (map ValidateSettings (operations xs), Inr (map validateSettings (operations xs)))"
  by (induction xs rule: operations.induct) auto

lemma render_loop_filter:
  "render_loop r (filter truthy xs) =
     (map (\<lambda>operation. OperationRender operation r) (operations xs),
      Inr (map operation_render (operations xs)))"
  by (induction xs rule: operations.induct) auto

lemma operations_filter: "operations (filter truthy xs) = operations xs"
  by (induction xs rule: operations.induct) auto

lemma render_eq:
  "render c this h =
     ((fst (phases c this (operations (sanitized this h))),
       Returns (snd (phases c this (operations (sanitized this h))))),
      snd (sanitizedStack this h))"
  by (simp add: render_def sanitized_eq sanitizedStack_eq validation_loop_filter
        render_phase_def render_loop_filter operations_filter phases_def Let_def)

subsection \<open>Promise.all\<close>

lemma first_rejection_None: "first_rejection ps = None \<longleftrightarrow> (\<forall>t e. Rejects t e \<notin> set ps)"
  by (induction ps rule: first_rejection.induct) (auto split: option.splits)

lemma first_rejection_Some:
  "first_rejection ps = Some (t, e) \<Longrightarrow>
     Rejects t e \<in> set ps \<and> (\<forall>t' e'. Rejects t' e' \<in> set ps \<longrightarrow> t \<le> t')"
  by (induction ps arbitrary: t e rule: first_rejection.induct)
     (fastforce split: option.splits if_splits simp: first_rejection_None)+

lemma Promise_all_Resolved:
  "Promise_all ps = Resolved \<longleftrightarrow> (\<forall>p \<in> set ps. \<exists>t. p = Fulfils t)"
proof -
  have "list_ex is_pending qs \<longleftrightarrow> Pending \<in> set qs" for qs
    by (induction qs) (auto elim: is_pending.elims)
  moreover have "(\<forall>p \<in> set ps. \<exists>t. p = Fulfils t)
                 \<longleftrightarrow> Pending \<notin> set ps \<and> (\<forall>t e. Rejects t e \<notin> set ps)"
    by (metis promise.exhaust promise.distinct(1,3))
  ultimately show ?thesis
    by (auto simp: Promise_all_def first_rejection_None split: option.splits
          dest: first_rejection_Some)
qed

lemma Promise_all_rejected:
  assumes "Rejects t e \<in> set ps"
  shows "\<exists>t' e'. Promise_all ps = Failed e' \<and> Rejects t' e' \<in> set ps
                 \<and> (\<forall>t'' e''. Rejects t'' e'' \<in> set ps \<longrightarrow> t' \<le> t'')"
proof (cases "first_rejection ps")
  case None
  with assms show ?thesis by (simp add: first_rejection_None)
next
  case (Some a)
  obtain t' e' where "a = (t', e')" by (cases a)
  with Some have "first_rejection ps = Some (t', e')" by simp
  from first_rejection_Some [OF this] this show ?thesis
    by (auto simp: Promise_all_def)
qed

subsection \<open>A failed validation\<close>

lemma render_trace_eq: "render_trace c this h = fst (phases c this (operations (sanitized this h)))"
  by (simp add: render_trace_def render_eq)

lemma render_completion_eq:
  "render_completion c this h = Returns (snd (phases c this (operations (sanitized this h))))"
  by (simp add: render_completion_def render_eq)

lemma render_heap_eq: "render_heap c this h = snd (sanitizedStack this h)"
  by (simp add: render_heap_def render_eq)

lemma phases_validation_failed:
  "Promise_all (map validateSettings ops) = Failed e \<Longrightarrow>
     phases c this ops = (map ValidateSettings ops, Failed e)"
  by (simp add: phases_def then_do_def)

lemma operation_render_calls_validate [simp]:
  "operation_render_calls (map ValidateSettings ops) = []"
  by (induction ops) auto

lemma sanitized_failing_store:
  "sanitized webgl_instance failing_store = [JOperation invalid_crop, JOperation rotation]"
  by (simp add: sanitized_eq webgl_instance_def failing_store_def)

lemma rejected_in_map:
  "operation \<in> set ops \<Longrightarrow> validateSettings operation = Rejects t e \<Longrightarrow>
     Rejects t e \<in> set (map validateSettings ops)"
  by (induction ops) auto

lemma validation_failure_phases:
  assumes "operation \<in> set ops" and "validateSettings operation = Rejects t e"
  shows "\<exists>t' e'. phases c this ops = (map ValidateSettings ops, Failed e')
            \<and> (\<exists>failing \<in> set ops. validateSettings failing = Rejects t' e')
            \<and> (\<forall>other \<in> set ops. \<forall>t'' e''.
                  validateSettings other = Rejects t'' e'' \<longrightarrow> t' \<le> t'')"
proof -
  have "Rejects t e \<in> set (map validateSettings ops)"
    using assms by (rule rejected_in_map)
  from Promise_all_rejected [OF this]
  obtain t' e' where all: "Promise_all (map validateSettings ops) = Failed e'"
    and mem: "Rejects t' e' \<in> set (map validateSettings ops)"
    and least: "\<forall>t'' e''. Rejects t'' e'' \<in> set (map validateSettings ops) \<longrightarrow> t' \<le> t''"
    by blast
  have ph: "phases c this ops = (map ValidateSettings ops, Failed e')"
    by (rule phases_validation_failed [OF all])
  from mem obtain failing where f: "failing \<in> set ops" "validateSettings failing = Rejects t' e'"
    by auto
  have l: "\<forall>other \<in> set ops. \<forall>t'' e''. validateSettings other = Rejects t'' e'' \<longrightarrow> t' \<le> t''"
    using least rejected_in_map by blast
  show ?thesis
    apply (rule exI [of _ t'], rule exI [of _ e'])
    apply (intro conjI)
      apply (rule ph)
     apply (rule bexI [of _ failing])
      apply (rule f(2))
     apply (rule f(1))
    apply (rule l)
    done
qed

text \<open>
  Claim C1. If the \<^verbatim>\<open>validateSettings\<close> promise of an operation of the sanitized stack is
  rejected, the promise of \<^verbatim>\<open>render\<close> is rejected with the reason of the validation
  rejected first (with that very reason when no other reason is around), and the calls
  made are the \<^verbatim>\<open>validateSettings\<close> calls alone: no operation is rendered and the
  backend is not touched.
\<close>

theorem validation_failure_gates_render:
  assumes "operation \<in> set (operations (sanitized this h))"
      and "validateSettings operation = Rejects t e"
  shows "(\<exists>t' e'. render_completion c this h = Returns (Failed e')
            \<and> (\<exists>failing \<in> set (operations (sanitized this h)).
                  validateSettings failing = Rejects t' e')
            \<and> (\<forall>other \<in> set (operations (sanitized this h)). \<forall>t'' e''.
                  validateSettings other = Rejects t'' e'' \<longrightarrow> t' \<le> t''))
         \<and> ((\<forall>other \<in> set (operations (sanitized this h)). \<forall>t'' e''.
                  validateSettings other = Rejects t'' e'' \<longrightarrow> e'' = e)
              \<longrightarrow> render_completion c this h = Returns (Failed e))
         \<and> render_trace c this h = map ValidateSettings (operations (sanitized this h))
         \<and> operation_render_calls (render_trace c this h) = []"
proof -
  let ?ops = "operations (sanitized this h)"
  from validation_failure_phases [OF assms, of c this]
  obtain t' e' failing where ph: "phases c this ?ops = (map ValidateSettings ?ops, Failed e')"
    and f: "failing \<in> set ?ops" "validateSettings failing = Rejects t' e'"
    and l: "\<forall>other \<in> set ?ops. \<forall>t'' e''. validateSettings other = Rejects t'' e'' \<longrightarrow> t' \<le> t''"
    by blast
  have c1: "render_completion c this h = Returns (Failed e')"
    by (simp add: render_completion_eq ph)
  have c2: "render_trace c this h = map ValidateSettings ?ops"
    by (simp add: render_trace_eq ph)
  have c3: "(\<forall>other \<in> set ?ops. \<forall>t'' e''.
                  validateSettings other = Rejects t'' e'' \<longrightarrow> e'' = e)
              \<longrightarrow> render_completion c this h = Returns (Failed e)"
  proof
    assume "\<forall>other \<in> set ?ops. \<forall>t'' e''. validateSettings other = Rejects t'' e'' \<longrightarrow> e'' = e"
    with f have "e' = e" by blast
    with c1 show "render_completion c this h = Returns (Failed e)" by simp
  qed
  have c4: "operation_render_calls (render_trace c this h) = []"
    by (simp add: c2)
  have c0: "\<exists>t' e'. render_completion c this h = Returns (Failed e')
            \<and> (\<exists>failing \<in> set ?ops. validateSettings failing = Rejects t' e')
            \<and> (\<forall>other \<in> set ?ops. \<forall>t'' e''.
                  validateSettings other = Rejects t'' e'' \<longrightarrow> t' \<le> t'')"
    apply (rule exI [of _ t'], rule exI [of _ e'])
    apply (intro conjI)
      apply (rule c1)
     apply (rule bexI [of _ failing])
      apply (rule f(2))
     apply (rule f(1))
    apply (rule l)
    done
  from c0 c3 c2 c4 show ?thesis by (intro conjI)
qed

theorem validation_failure_gates_render_witness:
  "invalid_crop \<in> set (operations (sanitized webgl_instance failing_store))
   \<and> validateSettings invalid_crop = Rejects 1 (Error ''invalid settings'')
   \<and> render_completion halving webgl_instance failing_store
       = Returns (Failed (Error ''invalid settings''))
   \<and> render_trace halving webgl_instance failing_store
       = [ValidateSettings invalid_crop, ValidateSettings rotation]
   \<and> operation_render_calls (render_trace halving webgl_instance failing_store) = []"
proof -
  have m: "invalid_crop \<in> set (operations (sanitized webgl_instance failing_store))"
    by (simp add: sanitized_failing_store)
  have v: "validateSettings invalid_crop = Rejects 1 (Error ''invalid settings'')"
    by (simp add: invalid_crop_def)
  have only: "\<forall>other \<in> set (operations (sanitized webgl_instance failing_store)). \<forall>t'' e''.
                validateSettings other = Rejects t'' e'' \<longrightarrow> e'' = Error ''invalid settings''"
    by (simp add: sanitized_failing_store invalid_crop_def rotation_def)
  note gate = validation_failure_gates_render [OF m v, of halving]
  from gate only have c: "render_completion halving webgl_instance failing_store
       = Returns (Failed (Error ''invalid settings''))"
    by blast
  from gate have t: "render_trace halving webgl_instance failing_store
       = map ValidateSettings (operations (sanitized webgl_instance failing_store))"
    by blast
  from gate have r: "operation_render_calls (render_trace halving webgl_instance failing_store) = []"
    by blast
  from t have t': "render_trace halving webgl_instance failing_store
       = [ValidateSettings invalid_crop, ValidateSettings rotation]"
    by (simp add: sanitized_failing_store)
  from m v c t' r show ?thesis by (intro conjI)
qed

subsection \<open>The resize\<close>

lemma resizeTo_calls_append [simp]: "resizeTo_calls (xs @ ys) = resizeTo_calls xs @ resizeTo_calls ys"
  by (induction xs rule: resizeTo_calls.induct) auto

lemma resizeTo_calls_validate [simp]: "resizeTo_calls (map ValidateSettings ops) = []"
  by (induction ops) auto

lemma resizeTo_calls_render [simp]:
  "resizeTo_calls (map (\<lambda>operation. OperationRender operation r) ops) = []"
  by (induction ops) auto

lemma phases_Resolved:
  assumes "snd (phases c this ops) = Resolved"
  shows "fst (phases c this ops) =
           (map ValidateSettings ops @ map (\<lambda>operation. OperationRender operation (renderer this)) ops)
           @ [RenderFinal, GetSize, CalculateFinalDimensions (dimensions this) (getSize c)]
           @ (if equals (calculateFinalDimensions c (dimensions this) (getSize c)) (getSize c)
              then [] else [ResizeTo (calculateFinalDimensions c (dimensions this) (getSize c))])"
  using assms
  by (auto simp: phases_def then_do_def finalize_phase_def resize_phase_def Let_def
           split: outcome.splits option.splits if_splits)

text \<open>
  Claim C3. When the promise of \<^verbatim>\<open>render\<close> is fulfilled, the calls end with
  \<^verbatim>\<open>renderFinal\<close>, \<^verbatim>\<open>getSize\<close> and the resolution of the final size from that size and
  the stored dimensions; \<^verbatim>\<open>resizeTo\<close> is then not called at all when the resolved size
  equals the current one, and is called exactly once, with the resolved size, when it
  differs.
\<close>

theorem resize_only_when_size_differs:
  assumes "render_completion c this h = Returns Resolved"
  shows "(\<exists>before.
            render_trace c this h =
              before @ [RenderFinal, GetSize, CalculateFinalDimensions (dimensions this) (getSize c)]
              @ (if equals (calculateFinalDimensions c (dimensions this) (getSize c)) (getSize c)
                 then [] else [ResizeTo (calculateFinalDimensions c (dimensions this) (getSize c))])
            \<and> resizeTo_calls before = [])
         \<and> resizeTo_calls (render_trace c this h) =
             (if equals (calculateFinalDimensions c (dimensions this) (getSize c)) (getSize c)
              then [] else [calculateFinalDimensions c (dimensions this) (getSize c)])"
proof -
  let ?ops = "operations (sanitized this h)"
  let ?before = "map ValidateSettings ?ops
                 @ map (\<lambda>operation. OperationRender operation (renderer this)) ?ops"
  from assms have "snd (phases c this ?ops) = Resolved"
    by (simp add: render_completion_eq)
  from phases_Resolved [OF this]
  have tr: "render_trace c this h =
              ?before @ [RenderFinal, GetSize, CalculateFinalDimensions (dimensions this) (getSize c)]
              @ (if equals (calculateFinalDimensions c (dimensions this) (getSize c)) (getSize c)
                 then [] else [ResizeTo (calculateFinalDimensions c (dimensions this) (getSize c))])"
    by (simp only: render_trace_eq)
  have b: "resizeTo_calls ?before = []" by simp
  from tr b have first: "\<exists>before.
            render_trace c this h =
              before @ [RenderFinal, GetSize, CalculateFinalDimensions (dimensions this) (getSize c)]
              @ (if equals (calculateFinalDimensions c (dimensions this) (getSize c)) (getSize c)
                 then [] else [ResizeTo (calculateFinalDimensions c (dimensions this) (getSize c))])
            \<and> resizeTo_calls before = []"
    by blast
  have second: "resizeTo_calls (render_trace c this h) =
             (if equals (calculateFinalDimensions c (dimensions this) (getSize c)) (getSize c)
              then [] else [calculateFinalDimensions c (dimensions this) (getSize c)])"
    by (simp add: tr)
  from first second show ?thesis by (rule conjI)
qed

lemma render_mixed_halving:
  "render_completion halving webgl_instance mixed_store = Returns Resolved"
  by code_simp

lemma render_mixed_keeping:
  "render_completion keeping webgl_instance mixed_store = Returns Resolved"
  by code_simp

theorem resize_only_when_size_differs_witness:
  "render_completion halving webgl_instance mixed_store = Returns Resolved
   \<and> resizeTo_calls (render_trace halving webgl_instance mixed_store) = [Vector2 50 50]
   \<and> render_completion keeping webgl_instance mixed_store = Returns Resolved
   \<and> resizeTo_calls (render_trace keeping webgl_instance mixed_store) = []"
proof -
  from resize_only_when_size_differs [OF render_mixed_halving]
  have "resizeTo_calls (render_trace halving webgl_instance mixed_store) = [Vector2 50 50]"
    by (simp add: halving_def equals_def Vector2_def)
  moreover from resize_only_when_size_differs [OF render_mixed_keeping]
  have "resizeTo_calls (render_trace keeping webgl_instance mixed_store) = []"
    by (simp add: keeping_def equals_def)
  ultimately show ?thesis
    using render_mixed_halving render_mixed_keeping by simp
qed

subsection \<open>The final rendering\<close>

lemma RenderFinal_notin_validate [simp]: "RenderFinal \<notin> set (map ValidateSettings ops)"
  by (induction ops) auto

lemma RenderFinal_notin_render [simp]:
  "RenderFinal \<notin> set (map (\<lambda>operation. OperationRender operation r) ops)"
  by (induction ops) auto

lemma RenderFinal_notin_resize [simp]: "RenderFinal \<notin> set (fst (resize_phase c this))"
  by (simp add: resize_phase_def Let_def split: option.splits)

lemma operation_render_calls_resize [simp]: "operation_render_calls (fst (resize_phase c this)) = []"
  by (simp add: resize_phase_def Let_def split: option.splits)

lemma phases_reaches_finalize:
  assumes "RenderFinal \<in> set (fst (phases c this ops))"
  shows "Promise_all (map validateSettings ops) = Resolved
         \<and> Promise_all (map operation_render ops) = Resolved
         \<and> (\<exists>after. fst (phases c this ops) =
                map ValidateSettings ops
                @ map (\<lambda>operation. OperationRender operation (renderer this)) ops
                @ RenderFinal # after
              \<and> RenderFinal \<notin> set after \<and> operation_render_calls after = [])"
  using assms
  by (auto simp: phases_def then_do_def finalize_phase_def
           split: outcome.splits option.splits if_splits)

lemma render_reaches_finalize_iff:
  "RenderFinal \<in> set (render_trace c this h) \<longleftrightarrow>
     renderer this \<noteq> None
     \<and> Promise_all (map validateSettings (operations (sanitized this h))) = Resolved
     \<and> Promise_all (map operation_render (operations (sanitized this h))) = Resolved"
  by (auto simp: render_trace_eq phases_def then_do_def finalize_phase_def
           split: outcome.splits option.splits)

lemma fulfilled_in_map:
  "\<forall>p \<in> set (map operation_render ops). \<exists>t. p = Fulfils t \<Longrightarrow>
     \<forall>operation \<in> set ops. \<exists>t. operation_render operation = Fulfils t"
  by (induction ops) auto

lemma render_reaches_finalize:
  assumes "RenderFinal \<in> set (render_trace c this h)"
  shows "count_list (render_trace c this h) RenderFinal = 1"
    and "\<forall>operation \<in> set (operations (sanitized this h)). \<exists>t. operation_render operation = Fulfils t"
    and "\<exists>after. render_trace c this h =
            map ValidateSettings (operations (sanitized this h))
            @ map (\<lambda>operation. OperationRender operation (renderer this)) (operations (sanitized this h))
            @ RenderFinal # after
          \<and> operation_render_calls after = []"
proof -
  let ?ops = "operations (sanitized this h)"
  from assms have "RenderFinal \<in> set (fst (phases c this ?ops))"
    by (simp add: render_trace_eq)
  from phases_reaches_finalize [OF this]
  obtain after where r: "Promise_all (map operation_render ?ops) = Resolved"
    and tr: "fst (phases c this ?ops) =
                map ValidateSettings ?ops
                @ map (\<lambda>operation. OperationRender operation (renderer this)) ?ops
                @ RenderFinal # after"
    and a: "RenderFinal \<notin> set after" "operation_render_calls after = []"
    by blast
  from a(1) show "count_list (render_trace c this h) RenderFinal = 1"
    by (auto simp: render_trace_eq tr count_list_0_iff)
  from r show "\<forall>operation \<in> set ?ops. \<exists>t. operation_render operation = Fulfils t"
    by (intro fulfilled_in_map) (simp only: Promise_all_Resolved)
  from tr a(2) show "\<exists>after. render_trace c this h =
            map ValidateSettings ?ops
            @ map (\<lambda>operation. OperationRender operation (renderer this)) ?ops
            @ RenderFinal # after
          \<and> operation_render_calls after = []"
    by (simp only: render_trace_eq) blast
qed

text \<open>
  Claim C5. A call of \<^verbatim>\<open>render\<close> that gets to \<^verbatim>\<open>renderFinal\<close> calls it exactly once, after
  the \<^verbatim>\<open>render\<close> call of every operation of the sanitized stack, and each of those
  promises has been fulfilled by then. A second call on the same instance that gets there
  calls it again: the two calls together hold two \<^verbatim>\<open>renderFinal\<close> calls.
\<close>

theorem renderFinal_once_after_operations:
  assumes "RenderFinal \<in> set (render_trace c this h)"
  shows "count_list (render_trace c this h) RenderFinal = 1
         \<and> (\<forall>operation \<in> set (operations (sanitized this h)).
               \<exists>t. operation_render operation = Fulfils t)
         \<and> (\<exists>after. render_trace c this h =
               map ValidateSettings (operations (sanitized this h))
               @ map (\<lambda>operation. OperationRender operation (renderer this))
                     (operations (sanitized this h))
               @ RenderFinal # after
             \<and> operation_render_calls after = [])
         \<and> (RenderFinal \<in> set (render_trace c' this h') \<longrightarrow>
               count_list (render_trace c this h @ render_trace c' this h') RenderFinal = 2)"
proof -
  have two: "RenderFinal \<in> set (render_trace c' this h') \<longrightarrow>
               count_list (render_trace c this h @ render_trace c' this h') RenderFinal = 2"
  proof
    assume "RenderFinal \<in> set (render_trace c' this h')"
    then have "count_list (render_trace c' this h') RenderFinal = 1"
      by (rule render_reaches_finalize(1))
    with render_reaches_finalize(1) [OF assms]
    show "count_list (render_trace c this h @ render_trace c' this h') RenderFinal = 2"
      by simp
  qed
  from render_reaches_finalize [OF assms] two show ?thesis
    by (intro conjI)
qed

theorem renderFinal_once_after_operations_witness:
  "RenderFinal \<in> set (render_trace halving webgl_instance mixed_store)
   \<and> count_list (render_trace halving webgl_instance mixed_store) RenderFinal = 1
   \<and> RenderFinal \<in> set (render_trace keeping webgl_instance
                            (render_heap halving webgl_instance mixed_store))
   \<and> count_list (render_trace halving webgl_instance mixed_store
                  @ render_trace keeping webgl_instance
                      (render_heap halving webgl_instance mixed_store)) RenderFinal = 2"
proof -
  have a: "RenderFinal \<in> set (render_trace halving webgl_instance mixed_store)"
    by code_simp
  have b: "RenderFinal \<in> set (render_trace keeping webgl_instance
                            (render_heap halving webgl_instance mixed_store))"
    by code_simp
  from renderFinal_once_after_operations
         [OF a, of keeping "render_heap halving webgl_instance mixed_store"] a b
  show ?thesis by blast
qed

subsection \<open>The drawing of the source image\<close>

lemma drawImage_calls_append [simp]:
  "drawImage_calls (xs @ ys) = drawImage_calls xs @ drawImage_calls ys"
  by (induction xs rule: drawImage_calls.induct) auto

lemma drawImage_calls_validate [simp]: "drawImage_calls (map ValidateSettings ops) = []"
  by (induction ops) auto

lemma drawImage_calls_render [simp]:
  "drawImage_calls (map (\<lambda>operation. OperationRender operation r) ops) = []"
  by (induction ops) auto

lemma drawImage_calls_phases: "drawImage_calls (fst (phases c this ops)) = []"
  by (simp add: phases_def then_do_def finalize_phase_def resize_phase_def Let_def
        split: outcome.splits option.splits)

lemma drawImage_calls_render_trace: "drawImage_calls (render_trace c this h) = []"
  by (simp add: render_trace_eq drawImage_calls_phases)

lemma drawImage_calls_renders:
  "drawImage_calls (concat (map (\<lambda>(c, h). render_trace c this h) calls)) = []"
  by (induction calls) (auto simp: drawImage_calls_render_trace)

text \<open>
  Claim C7. For an instance whose construction succeeded, \<^verbatim>\<open>drawImage\<close> is called once
  with the image given to the constructor, as the last call of the constructor; no call of
  \<^verbatim>\<open>render\<close> calls it, so over the life of the instance it is called exactly once, before
  every call that \<^verbatim>\<open>render\<close> makes.
\<close>

theorem drawImage_once_at_construction:
  assumes "RenderImage env img s d pref = (constructed, Inr this)"
  shows "drawImage_calls constructed = [img]
         \<and> last constructed = DrawImage img
         \<and> drawImage_calls (render_trace c this h) = []
         \<and> drawImage_calls (lifetime_trace constructed this calls) = [img]"
proof -
  from assms have "constructed = [IsSupported WebGL, NewRenderer WebGL (Vector2 (width img) (height img)), DrawImage img]
      \<or> constructed = [IsSupported WebGL, IsSupported Canvas,
             NewRenderer Canvas (Vector2 (width img) (height img)), DrawImage img]"
    by (auto simp: RenderImage_eq split: if_splits)
  then have c: "drawImage_calls constructed = [img] \<and> last constructed = DrawImage img"
    by auto
  then show ?thesis
    by (simp add: lifetime_trace_def drawImage_calls_render_trace drawImage_calls_renders)
qed

theorem drawImage_once_at_construction_witness:
  "RenderImage both_supported photo 0 ''50x50'' None =
     ([IsSupported WebGL, NewRenderer WebGL (Vector2 100 100), DrawImage photo], Inr webgl_instance)
   \<and> drawImage_calls
        (lifetime_trace [IsSupported WebGL, NewRenderer WebGL (Vector2 100 100), DrawImage photo]
           webgl_instance
           [(halving, mixed_store), (keeping, render_heap halving webgl_instance mixed_store)])
       = [photo]"
proof -
  have r: "RenderImage both_supported photo 0 ''50x50'' None =
     ([IsSupported WebGL, NewRenderer WebGL (Vector2 100 100), DrawImage photo], Inr webgl_instance)"
    by (simp add: RenderImage_eq both_supported_def photo_def webgl_instance_def)
  from drawImage_once_at_construction [OF r] r show ?thesis by blast
qed

subsection \<open>The caller's array\<close>

lemma validateSettings_calls_append [simp]:
  "validateSettings_calls (xs @ ys) = validateSettings_calls xs @ validateSettings_calls ys"
  by (induction xs rule: validateSettings_calls.induct) auto

lemma validateSettings_calls_validate [simp]:
  "validateSettings_calls (map ValidateSettings ops) = ops"
  by (induction ops) auto

lemma validateSettings_calls_render [simp]:
  "validateSettings_calls (map (\<lambda>operation. OperationRender operation r) ops) = []"
  by (induction ops) auto

lemma validateSettings_calls_phases: "validateSettings_calls (fst (phases c this ops)) = ops"
  by (simp add: phases_def then_do_def finalize_phase_def resize_phase_def Let_def
        split: outcome.splits option.splits)

lemma validateSettings_calls_render_trace:
  "validateSettings_calls (render_trace c this h) = operations (sanitized this h)"
  by (simp add: render_trace_eq validateSettings_calls_phases)

text \<open>
  Claim C8. Each call of \<^verbatim>\<open>render\<close> filters the caller's array as it is then: after a
  first call, and after the caller has put other entries \<open>xs\<close> in its array, the getter
  yields the truthy entries of \<open>xs\<close> and a second call validates the operations of \<open>xs\<close>.
\<close>

theorem sanitized_stack_recomputed_each_render:
  assumes "stack this < fresh h"
  shows "validateSettings_calls (render_trace c1 this h) = operations (arrays h (stack this))
         \<and> sanitized this (caller_writes (stack this) xs (render_heap c1 this h)) = filter truthy xs
         \<and> validateSettings_calls
              (render_trace c2 this (caller_writes (stack this) xs (render_heap c1 this h)))
             = operations xs"
  using assms
  by (simp add: validateSettings_calls_render_trace sanitized_eq render_heap_eq sanitizedStack_eq
        caller_writes_def operations_filter)

theorem sanitized_stack_recomputed_each_render_witness:
  "stack webgl_instance < fresh mixed_store
   \<and> validateSettings_calls (render_trace halving webgl_instance mixed_store)
       = [crop, rotation, filters]
   \<and> validateSettings_calls
        (render_trace halving webgl_instance
           (caller_writes (stack webgl_instance) [JNull, JOperation filters, JOperation crop]
              (render_heap halving webgl_instance mixed_store)))
       = [filters, crop]"
proof -
  have w: "stack webgl_instance < fresh mixed_store"
    by (simp add: webgl_instance_def mixed_store_def)
  from sanitized_stack_recomputed_each_render
         [OF w, of halving "[JNull, JOperation filters, JOperation crop]" halving] w
  show ?thesis
    by (simp add: webgl_instance_def mixed_store_def)
qed

text \<open>
  Claim C9. The getter and \<^verbatim>\<open>render\<close> leave the caller's array, and every array that
  existed before the call, as they were; the array the getter hands back is a new one, at
  an address that no array had before. The constructor and \<^verbatim>\<open>getRenderer\<close> only copy or
  read fields of the instance and have no access to the store.
\<close>

theorem caller_stack_never_mutated:
  assumes "stack this < fresh h"
  shows "arrays (snd (sanitizedStack this h)) (stack this) = arrays h (stack this)
         \<and> arrays (render_heap c this h) (stack this) = arrays h (stack this)
         \<and> fst (sanitizedStack this h) = fresh h
         \<and> fst (sanitizedStack this h) \<noteq> stack this
         \<and> (\<forall>a. a < fresh h \<longrightarrow>
               arrays (snd (sanitizedStack this h)) a = arrays h a
               \<and> arrays (render_heap c this h) a = arrays h a)"
  using assms by (simp add: render_heap_eq sanitizedStack_eq)

theorem caller_stack_never_mutated_witness:
  "stack webgl_instance < fresh mixed_store
   \<and> arrays (snd (sanitizedStack webgl_instance mixed_store)) (stack webgl_instance)
       = [JOperation crop, JNull, JOperation rotation, JUndefined, JOperation filters]
   \<and> arrays (render_heap halving webgl_instance mixed_store) (stack webgl_instance)
       = [JOperation crop, JNull, JOperation rotation, JUndefined, JOperation filters]
   \<and> fst (sanitizedStack webgl_instance mixed_store) = 1"
proof -
  have w: "stack webgl_instance < fresh mixed_store"
    by (simp add: webgl_instance_def mixed_store_def)
  from caller_stack_never_mutated [OF w, of halving] w
  show ?thesis
    by (simp add: webgl_instance_def mixed_store_def)
qed

subsection \<open>A stack without operations\<close>

lemma operations_falsy: "\<forall>e \<in> set xs. \<not> truthy e \<Longrightarrow> operations xs = []"
  by (induction xs rule: operations.induct) auto

lemma constructed_renderer:
  "snd (RenderImage env img s d pref) = Inr this \<Longrightarrow> \<exists>r. renderer this = Some r"
  by (auto simp: RenderImage_eq split: if_splits)

lemma phases_no_operations:
  assumes "renderer this = Some r"
  shows "phases c this [] =
           (case settle (renderFinal c) of
              Resolved \<Rightarrow>
                (if equals (calculateFinalDimensions c (dimensions this) (getSize c)) (getSize c)
                 then ([RenderFinal, GetSize,
                        CalculateFinalDimensions (dimensions this) (getSize c)],
                       Resolved)
                 else ([RenderFinal, GetSize,
                        CalculateFinalDimensions (dimensions this) (getSize c),
                        ResizeTo (calculateFinalDimensions c (dimensions this) (getSize c))],
                       settle (resizeTo c (calculateFinalDimensions c (dimensions this) (getSize c)))))
            | Failed e \<Rightarrow> ([RenderFinal], Failed e)
            | Unsettled \<Rightarrow> ([RenderFinal], Unsettled))"
  using assms
  by (simp add: phases_def then_do_def Promise_all_def finalize_phase_def resize_phase_def Let_def
        split: outcome.splits)

text \<open>
  Claim C10, amended. For a constructed instance whose stack is empty or holds falsy
  entries only, \<^verbatim>\<open>render\<close> calls no method of any operation and calls \<^verbatim>\<open>renderFinal\<close>.
  When that promise is fulfilled it asks for the size, resolves the final size and calls
  \<^verbatim>\<open>resizeTo\<close> only if the sizes differ; its promise is then fulfilled when the resize is
  left out, and ends as the promise of \<^verbatim>\<open>resizeTo\<close> does otherwise. When the promise of
  \<^verbatim>\<open>renderFinal\<close> is rejected or stays pending, so does the promise of \<^verbatim>\<open>render\<close>, and
  nothing is called after \<^verbatim>\<open>renderFinal\<close>.
\<close>

theorem falsy_stack_still_finalizes:
  assumes "snd (RenderImage env img s d pref) = Inr this"
      and "stack this < fresh h"
      and "\<forall>e \<in> set (arrays h (stack this)). \<not> truthy e"
  shows "validateSettings_calls (render_trace c this h) = []
         \<and> operation_render_calls (render_trace c this h) = []
         \<and> (render_trace c this h, render_completion c this h) =
           (case settle (renderFinal c) of
              Resolved \<Rightarrow>
                (if equals (calculateFinalDimensions c (dimensions this) (getSize c)) (getSize c)
                 then ([RenderFinal, GetSize,
                        CalculateFinalDimensions (dimensions this) (getSize c)],
                       Returns Resolved)
                 else ([RenderFinal, GetSize,
                        CalculateFinalDimensions (dimensions this) (getSize c),
                        ResizeTo (calculateFinalDimensions c (dimensions this) (getSize c))],
                       Returns (settle (resizeTo c
                                  (calculateFinalDimensions c (dimensions this) (getSize c))))))
            | Failed e \<Rightarrow> ([RenderFinal], Returns (Failed e))
            | Unsettled \<Rightarrow> ([RenderFinal], Returns Unsettled))"
proof -
  from assms(1) obtain r where r: "renderer this = Some r"
    using constructed_renderer by blast
  from assms(2,3) have ops: "operations (sanitized this h) = []"
    by (simp add: sanitized_eq operations_filter operations_falsy)
  have tr: "render_trace c this h = fst (phases c this [])"
    by (simp add: render_trace_eq ops)
  have co: "render_completion c this h = Returns (snd (phases c this []))"
    by (simp add: render_completion_eq ops)
  have v: "validateSettings_calls (render_trace c this h) = []"
    by (simp add: validateSettings_calls_render_trace ops)
  have o: "operation_render_calls (render_trace c this h) = []"
    by (simp add: tr phases_no_operations [OF r] split: outcome.splits)
  have p: "(render_trace c this h, render_completion c this h) =
           (case settle (renderFinal c) of
              Resolved \<Rightarrow>
                (if equals (calculateFinalDimensions c (dimensions this) (getSize c)) (getSize c)
                 then ([RenderFinal, GetSize,
                        CalculateFinalDimensions (dimensions this) (getSize c)],
                       Returns Resolved)
                 else ([RenderFinal, GetSize,
                        CalculateFinalDimensions (dimensions this) (getSize c),
                        ResizeTo (calculateFinalDimensions c (dimensions this) (getSize c))],
                       Returns (settle (resizeTo c
                                  (calculateFinalDimensions c (dimensions this) (getSize c))))))
            | Failed e \<Rightarrow> ([RenderFinal], Returns (Failed e))
            | Unsettled \<Rightarrow> ([RenderFinal], Returns Unsettled))"
    by (simp add: tr co phases_no_operations [OF r] split: outcome.splits)
  from v o p show ?thesis by (intro conjI)
qed

theorem falsy_stack_still_finalizes_witness:
  "snd (RenderImage both_supported photo 0 ''50x50'' None) = Inr webgl_instance
   \<and> stack webgl_instance < fresh falsy_store
   \<and> arrays falsy_store (stack webgl_instance) = [JNull, JUndefined]
   \<and> validateSettings_calls (render_trace halving webgl_instance falsy_store) = []
   \<and> operation_render_calls (render_trace halving webgl_instance falsy_store) = []
   \<and> render_trace halving webgl_instance falsy_store =
        [RenderFinal, GetSize, CalculateFinalDimensions ''50x50'' (Vector2 100 100),
         ResizeTo (Vector2 50 50)]
   \<and> render_completion halving webgl_instance falsy_store = Returns Resolved"
proof -
  have a: "snd (RenderImage both_supported photo 0 ''50x50'' None) = Inr webgl_instance"
    by (simp add: RenderImage_eq both_supported_def photo_def webgl_instance_def)
  have b: "stack webgl_instance < fresh falsy_store"
    by (simp add: webgl_instance_def falsy_store_def)
  have s: "arrays falsy_store (stack webgl_instance) = [JNull, JUndefined]"
    by (simp add: webgl_instance_def falsy_store_def)
  have f: "\<forall>e \<in> set (arrays falsy_store (stack webgl_instance)). \<not> truthy e"
    by (simp add: s)
  from falsy_stack_still_finalizes [OF a b f, of halving]
  have "validateSettings_calls (render_trace halving webgl_instance falsy_store) = []"
    and "operation_render_calls (render_trace halving webgl_instance falsy_store) = []"
    and "render_trace halving webgl_instance falsy_store =
        [RenderFinal, GetSize, CalculateFinalDimensions ''50x50'' (Vector2 100 100),
         ResizeTo (Vector2 50 50)]"
    and "render_completion halving webgl_instance falsy_store = Returns Resolved"
    by (simp_all add: halving_def webgl_instance_def equals_def Vector2_def)
  with a b s show ?thesis by (intro conjI)
qed

text \<open>
  Claim C10 as stated promises a size query and a fulfilled promise for every such stack.
  With a stack of two falsy entries and a backend whose \<^verbatim>\<open>renderFinal\<close> promise is
  rejected, \<^verbatim>\<open>render\<close> stops after \<^verbatim>\<open>renderFinal\<close> and its promise is rejected.
\<close>

theorem falsy_stack_render_fails_counterexample:
  "snd (RenderImage both_supported photo 0 ''50x50'' None) = Inr webgl_instance
   \<and> stack webgl_instance < fresh falsy_store
   \<and> arrays falsy_store (stack webgl_instance) = [JNull, JUndefined]
   \<and> render_trace losing_context webgl_instance falsy_store = [RenderFinal]
   \<and> GetSize \<notin> set (render_trace losing_context webgl_instance falsy_store)
   \<and> render_completion losing_context webgl_instance falsy_store
       = Returns (Failed (Error ''context lost''))
   \<and> render_completion losing_context webgl_instance falsy_store \<noteq> Returns Resolved"
  by code_simp

end
